theory Spec2Isabelle
  imports Main "HOL-Library.Word"
begin

unbundle bit_operations_syntax

section \<open>Op registration in tensorflow\_io/mnist/ops/dataset\_ops.cc\<close>

text \<open>
  The source file consists of two \<^verbatim>\<open>REGISTER_OP\<close> builder chains. Each chain names an
  op, declares two inputs and one output by argument specifications of the form
  \<^verbatim>\<open>name: type\<close>, marks the op stateful and attaches a shape function, a lambda over a
  pointer to a shape inference context. The builder, the registry and the inference
  context belong to the hosting framework; the parts of them that the two chains call
  are modelled below, each under the name the source uses.
\<close>

subsection \<open>Shapes and the inference context\<close>

text \<open>
  A dimension handle is read through its 64-bit signed value, where \<open>-1\<close> marks an
  unknown dimension. A shape handle is either of unknown rank or a list of dimensions.
  Handles are compared by what they denote; the identity of the objects behind them is
  not part of the model.
\<close>

type_synonym DimensionHandle = int

definition kUnknownDim :: int where
  "kUnknownDim = -1"

definition kUnknownRank :: int where
  "kUnknownRank = -1"

definition ValueKnown :: "DimensionHandle \<Rightarrow> bool" where
  "ValueKnown d = (d \<noteq> kUnknownDim)"

datatype ShapeHandle = UnknownShape | Shape "DimensionHandle list"

fun Rank :: "ShapeHandle \<Rightarrow> int" where
  "Rank UnknownShape = kUnknownRank"
| "Rank (Shape ds) = int (length ds)"

fun dims :: "ShapeHandle \<Rightarrow> DimensionHandle list" where
  "dims UnknownShape = []"
| "dims (Shape ds) = ds"

datatype Status = OK | Error string

text \<open>
  The inference context holds the shapes of the inputs, the values of those inputs that
  are known constants (string tensors here, flattened), and one slot per output. An
  output slot is \<open>None\<close> until a shape function has set it.
\<close>

record InferenceContext =
  inputs :: "ShapeHandle list"
  input_tensors :: "string list option list"
  outputs :: "ShapeHandle option list"

definition UnknownDim :: "InferenceContext \<Rightarrow> DimensionHandle" where
  "UnknownDim c = kUnknownDim"

definition MakeShape :: "InferenceContext \<Rightarrow> DimensionHandle list \<Rightarrow> ShapeHandle" where
  "MakeShape c ds = Shape ds"

text \<open>
  \<^verbatim>\<open>set_output(idx, shape)\<close> stores into the slot \<open>idx\<close>. The framework gives
  no meaning to an index outside the output slots (the access is unchecked or aborts,
  depending on the release), so that case is the value \<open>None\<close>.
\<close>

definition set_output :: "nat \<Rightarrow> ShapeHandle \<Rightarrow> InferenceContext \<Rightarrow> InferenceContext option" where
  "set_output idx s c =
     (if idx < length (outputs c) then Some (c\<lparr>outputs := (outputs c)[idx := Some s]\<rparr>)
      else None)"

definition output_at :: "InferenceContext \<Rightarrow> nat \<Rightarrow> ShapeHandle option" where
  "output_at c idx = (if idx < length (outputs c) then outputs c ! idx else None)"

type_synonym ShapeFn = "InferenceContext \<Rightarrow> (Status \<times> InferenceContext) option"

subsection \<open>The two shape functions\<close>

text \<open>
  Lines 27 to 30:
  \<^verbatim>\<open>c->set_output(0, c->MakeShape({c->UnknownDim(), c->UnknownDim()})); return Status::OK();\<close>
\<close>

definition MNISTImageDataset_shape_fn :: ShapeFn where
  "MNISTImageDataset_shape_fn c =
     (case set_output 0 (MakeShape c [UnknownDim c, UnknownDim c]) c of
        None \<Rightarrow> None
      | Some c' \<Rightarrow> Some (OK, c'))"

text \<open>
  Lines 36 to 39:
  \<^verbatim>\<open>c->set_output(0, c->MakeShape({})); return Status::OK();\<close>
\<close>

definition MNISTLabelDataset_shape_fn :: ShapeFn where
  "MNISTLabelDataset_shape_fn c =
     (case set_output 0 (MakeShape c []) c of
        None \<Rightarrow> None
      | Some c' \<Rightarrow> Some (OK, c'))"

subsection \<open>The op definition builder\<close>

datatype DataType =
  DT_FLOAT | DT_DOUBLE | DT_INT32 | DT_UINT8 | DT_STRING | DT_INT64 | DT_BOOL
  | DT_RESOURCE | DT_VARIANT

definition type_names :: "(string \<times> DataType) list" where
  "type_names =
     [(''float'', DT_FLOAT), (''double'', DT_DOUBLE), (''int32'', DT_INT32),
      (''uint8'', DT_UINT8), (''string'', DT_STRING), (''int64'', DT_INT64),
      (''bool'', DT_BOOL), (''resource'', DT_RESOURCE), (''variant'', DT_VARIANT)]"

record ArgDef =
  arg_name :: string
  arg_type :: DataType

record OpDef =
  op_name :: string
  input_arg :: "ArgDef list"
  output_arg :: "ArgDef list"
  is_stateful :: bool

record OpRegistrationData =
  op_def :: OpDef
  shape_inference_fn :: "ShapeFn option"

text \<open>
  The builder collects the argument specifications as written and parses them when the
  registration is finalized. A fresh builder describes an op that is not stateful and
  has no shape function.
\<close>

record OpDefBuilder =
  b_name :: string
  b_inputs :: "string list"
  b_outputs :: "string list"
  b_is_stateful :: bool
  b_shape_fn :: "ShapeFn option"

definition REGISTER_OP :: "string \<Rightarrow> OpDefBuilder" where
  "REGISTER_OP n =
     \<lparr>b_name = n, b_inputs = [], b_outputs = [], b_is_stateful = False, b_shape_fn = None\<rparr>"

definition Input :: "string \<Rightarrow> OpDefBuilder \<Rightarrow> OpDefBuilder" where
  "Input spec b = b\<lparr>b_inputs := b_inputs b @ [spec]\<rparr>"

definition Output :: "string \<Rightarrow> OpDefBuilder \<Rightarrow> OpDefBuilder" where
  "Output spec b = b\<lparr>b_outputs := b_outputs b @ [spec]\<rparr>"

definition SetIsStateful :: "OpDefBuilder \<Rightarrow> OpDefBuilder" where
  "SetIsStateful b = b\<lparr>b_is_stateful := True\<rparr>"

definition SetShapeFn :: "ShapeFn \<Rightarrow> OpDefBuilder \<Rightarrow> OpDefBuilder" where
  "SetShapeFn fn b = b\<lparr>b_shape_fn := Some fn\<rparr>"

text \<open>
  An argument specification of the form used in the source is a name (a lower-case
  letter, then lower-case letters, digits and underscores), a colon with optional blanks
  around it, and the name of a primitive type. Anything else does not parse.
\<close>

definition is_lower :: "char \<Rightarrow> bool" where
  "is_lower ch = (ch \<in> set ''abcdefghijklmnopqrstuvwxyz'')"

definition is_name_char :: "char \<Rightarrow> bool" where
  "is_name_char ch = (is_lower ch \<or> ch \<in> set ''0123456789_'')"

definition is_blank :: "char \<Rightarrow> bool" where
  "is_blank ch = (ch = CHR '' '')"

definition parse_arg :: "string \<Rightarrow> ArgDef option" where
  "parse_arg spec =
     (let nm = takeWhile is_name_char spec;
          rest = dropWhile is_blank (dropWhile is_name_char spec)
      in case nm of
           [] \<Rightarrow> None
         | ch # _ \<Rightarrow>
             if \<not> is_lower ch then None
             else (case rest of
                     [] \<Rightarrow> None
                   | sep # ty \<Rightarrow>
                       if sep \<noteq> CHR '':'' then None
                       else (case map_of type_names (dropWhile is_blank ty) of
                               None \<Rightarrow> None
                             | Some t \<Rightarrow> Some \<lparr>arg_name = nm, arg_type = t\<rparr>)))"

fun parse_args :: "string list \<Rightarrow> ArgDef list option" where
  "parse_args [] = Some []"
| "parse_args (spec # specs) =
     (case parse_arg spec of
        None \<Rightarrow> None
      | Some a \<Rightarrow> (case parse_args specs of None \<Rightarrow> None | Some as \<Rightarrow> Some (a # as)))"

definition Finalize :: "OpDefBuilder \<Rightarrow> OpRegistrationData option" where
  "Finalize b =
     (case parse_args (b_inputs b) of
        None \<Rightarrow> None
      | Some ins \<Rightarrow>
          (case parse_args (b_outputs b) of
             None \<Rightarrow> None
           | Some outs \<Rightarrow>
               Some \<lparr>op_def = \<lparr>op_name = b_name b, input_arg = ins, output_arg = outs,
                                is_stateful = b_is_stateful b\<rparr>,
                     shape_inference_fn = b_shape_fn b\<rparr>))"

text \<open>
  The registry keeps the registrations in the order in which they were made and refuses
  a second registration under a name it already holds.
\<close>

type_synonym OpRegistry = "OpRegistrationData list"

definition Register :: "OpDefBuilder \<Rightarrow> OpRegistry \<Rightarrow> OpRegistry option" where
  "Register b reg =
     (case Finalize b of
        None \<Rightarrow> None
      | Some d \<Rightarrow>
          if op_name (op_def d) \<in> set (map (\<lambda>r. op_name (op_def r)) reg) then None
          else Some (reg @ [d]))"

definition LookUp :: "OpRegistry \<Rightarrow> string \<Rightarrow> OpRegistrationData option" where
  "LookUp reg n = find (\<lambda>r. op_name (op_def r) = n) reg"

subsection \<open>The two registrations of the source file\<close>

text \<open>Lines 22 to 30.\<close>

definition MNISTImageDataset :: OpDefBuilder where
  "MNISTImageDataset =
     SetShapeFn MNISTImageDataset_shape_fn
       (SetIsStateful
         (Output ''handle: variant''
           (Input ''compression_type: string''
             (Input ''filenames: string''
               (REGISTER_OP ''MNISTImageDataset'')))))"

text \<open>Lines 31 to 39.\<close>

definition MNISTLabelDataset :: OpDefBuilder where
  "MNISTLabelDataset =
     SetShapeFn MNISTLabelDataset_shape_fn
       (SetIsStateful
         (Output ''handle: variant''
           (Input ''compression_type: string''
             (Input ''filenames: string''
               (REGISTER_OP ''MNISTLabelDataset'')))))"

text \<open>The registry after the file's static initializers have run, in file order.\<close>

definition dataset_ops :: "OpRegistry option" where
  "dataset_ops =
     (case Register MNISTImageDataset [] of
        None \<Rightarrow> None
      | Some reg \<Rightarrow> Register MNISTLabelDataset reg)"

text \<open>
  The context the framework builds to run an op's shape function: the given input
  shapes and constant input values, and one unset slot per declared output.
\<close>

definition make_context ::
  "OpDef \<Rightarrow> ShapeHandle list \<Rightarrow> string list option list \<Rightarrow> InferenceContext" where
  "make_context od in_shapes in_tensors =
     \<lparr>inputs = in_shapes, input_tensors = in_tensors,
      outputs = replicate (length (output_arg od)) None\<rparr>"

text \<open>What a shape function leaves in an output slot, if it returns at all.\<close>

definition inferred_output :: "ShapeFn \<Rightarrow> InferenceContext \<Rightarrow> nat \<Rightarrow> ShapeHandle option" where
  "inferred_output fn c idx =
     (case fn c of None \<Rightarrow> None | Some (st, c') \<Rightarrow> output_at c' idx)"

section \<open>The dataset decoder behind the two ops\<close>

text \<open>
  The kernels that the two registrations name are not part of the source file. The
  specification describes them as a file decoder and a record iterator; this section
  models both from that description, and every definition in it says so. A handle reads
  one path: the specification leaves open how several file names combine, and the
  properties below are about one file.
\<close>

subsection \<open>Bytes, files and errors\<close>

type_synonym byte = "8 word"

text \<open>
  Modelled from the spec: the compression designator of \<^verbatim>\<open>open\<close> (the decoder's code
  is missing), one of none, gzip-equivalent, zlib-equivalent.
\<close>

datatype Compression = Uncompressed | Gzip | Zlib

text \<open>
  Modelled from the spec: the error taxonomy of section 7 (the decoder's code is
  missing).
\<close>

datatype DecodeError = FileNotFound | DecompressionError | MalformedHeader | TruncatedRecord

text \<open>
  Modelled from the spec: the byte source that \<^verbatim>\<open>open\<close> reads (the code that opens and
  decompresses is missing). A stored file is known by the framing it is really wrapped
  in and by its decompressed bytes; a file system maps the readable paths to files.
\<close>

record StoredFile =
  framing :: Compression
  payload :: "byte list"

type_synonym FileSystem = "string \<Rightarrow> StoredFile option"

text \<open>
  Modelled from the spec: the stream position of section 3 (the decoder's code is
  missing), a cursor into the decompressed byte source.
\<close>

record FileDecoder =
  source :: "byte list"
  cursor :: nat

text \<open>
  Modelled from the spec: \<^verbatim>\<open>open(path, compressionType)\<close> of section 4.1 (its code is
  missing). An unreadable path is \<open>FileNotFound\<close>; a declared compression that is not
  the actual framing is \<open>DecompressionError\<close>.
\<close>

definition decoder_open :: "FileSystem \<Rightarrow> string \<Rightarrow> Compression \<Rightarrow> DecodeError + FileDecoder" where
  "decoder_open fs p ct =
     (case fs p of
        None \<Rightarrow> Inl FileNotFound
      | Some f \<Rightarrow>
          if framing f \<noteq> ct then Inl DecompressionError
          else Inr \<lparr>source = payload f, cursor = 0\<rparr>)"

text \<open>
  Modelled from the spec: the chunked read that the header and each record are pulled
  with (its code is missing). It returns exactly \<open>n\<close> bytes and advances the cursor, or
  nothing when fewer than \<open>n\<close> bytes remain.
\<close>

definition read_bytes :: "nat \<Rightarrow> FileDecoder \<Rightarrow> (byte list \<times> FileDecoder) option" where
  "read_bytes n d =
     (if cursor d + n \<le> length (source d)
      then Some (take n (drop (cursor d) (source d)), d\<lparr>cursor := cursor d + n\<rparr>)
      else None)"

text \<open>
  Modelled from the spec: the 4-byte big-endian integers of the file format, section 6
  (the decoder's code is missing). \<open>be32\<close> reads one, \<open>enc32\<close> writes one.
\<close>

definition be32 :: "byte list \<Rightarrow> 32 word" where
  "be32 bs = foldl (\<lambda>acc b. push_bit 8 acc OR ucast b) 0 bs"

definition enc32 :: "32 word \<Rightarrow> byte list" where
  "enc32 w = [ucast (drop_bit 24 w), ucast (drop_bit 16 w), ucast (drop_bit 8 w), ucast w]"

text \<open>
  Modelled from the spec: the two magic numbers of section 6 (the decoder's code is
  missing).
\<close>

definition kImageMagic :: "32 word" where
  "kImageMagic = 0x00000803"

definition kLabelMagic :: "32 word" where
  "kLabelMagic = 0x00000801"

subsection \<open>Header and records\<close>

text \<open>
  Modelled from the spec: the dataset header of section 3 (the decoder's code is
  missing): a record count, and for images a row count and a column count, each an
  unsigned 32-bit integer. The constructor stands for the magic number.
\<close>

datatype DatasetHeader =
  ImageHeader "32 word" "32 word" "32 word"
  | LabelHeader "32 word"

fun record_count :: "DatasetHeader \<Rightarrow> nat" where
  "record_count (ImageHeader n r c) = unat n"
| "record_count (LabelHeader n) = unat n"

text \<open>
  Modelled from the spec: one record's worth of raw bytes, section 4.2 (the iterator's
  code is missing): rows times cols bytes for images, one byte for labels.
\<close>

fun record_size :: "DatasetHeader \<Rightarrow> nat" where
  "record_size (ImageHeader n r c) = unat r * unat c"
| "record_size (LabelHeader n) = 1"

text \<open>
  Modelled from the spec: the record variant of section 3 (the iterator's code is
  missing). A label is any byte: values outside 0 to 9 still decode. A label record is
  made from the one byte that was read; the case of no byte is there for totality only,
  since a read of one byte never returns none.
\<close>

datatype Record = ImageRecord "byte list" | LabelRecord byte

fun make_record :: "DatasetHeader \<Rightarrow> byte list \<Rightarrow> Record" where
  "make_record (ImageHeader n r c) bs = ImageRecord bs"
| "make_record (LabelHeader n) bs = (case bs of [] \<Rightarrow> LabelRecord 0 | b # _ \<Rightarrow> LabelRecord b)"

text \<open>
  Modelled from the spec: \<^verbatim>\<open>readHeader()\<close> of section 4.1 (its code is missing). It reads
  the magic number and the fields that belong to it and leaves the cursor at record 0.
  It fails with \<open>MalformedHeader\<close> when the magic number is not one of the two known
  constants or when an image's rows times cols is zero; the spec names no other error
  for it, so a source too short to hold the header fails the same way. Every unsigned
  32-bit record count is at least zero, so no record count is refused.
\<close>

definition decoder_readHeader :: "FileDecoder \<Rightarrow> DecodeError + (DatasetHeader \<times> FileDecoder)" where
  "decoder_readHeader d =
     (case read_bytes 4 d of
        None \<Rightarrow> Inl MalformedHeader
      | Some (m, d1) \<Rightarrow>
          if be32 m = kImageMagic then
            (case read_bytes 12 d1 of
               None \<Rightarrow> Inl MalformedHeader
             | Some (bs, d2) \<Rightarrow>
                 (let n = be32 (take 4 bs);
                      r = be32 (take 4 (drop 4 bs));
                      c = be32 (take 4 (drop 8 bs))
                  in if unat r * unat c = 0 then Inl MalformedHeader
                     else Inr (ImageHeader n r c, d2)))
          else if be32 m = kLabelMagic then
            (case read_bytes 4 d1 of
               None \<Rightarrow> Inl MalformedHeader
             | Some (bs, d2) \<Rightarrow> Inr (LabelHeader (be32 bs), d2))
          else Inl MalformedHeader)"

subsection \<open>The record iterator\<close>

text \<open>
  Modelled from the spec: the state machine of section 4.2 (the iterator's code is
  missing). A ready iterator holds the decoder, the header and the index of the next
  record.
\<close>

datatype IterState =
  Unopened
  | HeaderPending FileDecoder
  | Ready FileDecoder DatasetHeader nat
  | Exhausted
  | Failed

record RecordIterator =
  path :: string
  compression_type :: Compression
  state :: IterState

text \<open>
  Modelled from the spec: what a call on the iterator reports (the iterator's code is
  missing): success of the call, a record, end of sequence, one of the four errors, or
  that the state machine does not permit the call in the current state.
\<close>

datatype Outcome =
  Opened
  | HeaderRead DatasetHeader
  | Produced Record
  | EndOfSequence
  | Restarted
  | Fail DecodeError
  | NotPermitted

definition new_iterator :: RecordIterator where
  "new_iterator = \<lparr>path = [], compression_type = Uncompressed, state = Unopened\<rparr>"

text \<open>
  Modelled from the spec: the transition \<^verbatim>\<open>open()\<close> of the state machine (its code is
  missing). A fresh open is possible in every state; an error leaves the iterator
  failed.
\<close>

definition open_iterator ::
  "FileSystem \<Rightarrow> string \<Rightarrow> Compression \<Rightarrow> RecordIterator \<Rightarrow> Outcome \<times> RecordIterator" where
  "open_iterator fs p ct it =
     (case decoder_open fs p ct of
        Inl e \<Rightarrow> (Fail e, \<lparr>path = p, compression_type = ct, state = Failed\<rparr>)
      | Inr d \<Rightarrow> (Opened, \<lparr>path = p, compression_type = ct, state = HeaderPending d\<rparr>))"

text \<open>
  Modelled from the spec: the transition \<^verbatim>\<open>readHeader()\<close> of the state machine (its
  code is missing), from header-pending to ready at index 0, or to failed.
\<close>

definition readHeader :: "RecordIterator \<Rightarrow> Outcome \<times> RecordIterator" where
  "readHeader it =
     (case state it of
        HeaderPending d \<Rightarrow>
          (case decoder_readHeader d of
             Inl e \<Rightarrow> (Fail e, it\<lparr>state := Failed\<rparr>)
           | Inr (h, d') \<Rightarrow> (HeaderRead h, it\<lparr>state := Ready d' h 0\<rparr>))
      | _ \<Rightarrow> (NotPermitted, it))"

text \<open>
  Modelled from the spec: \<^verbatim>\<open>next()\<close> of section 4.2 (its code is missing). In a ready
  state with records left it reads exactly one record's worth of bytes; fewer bytes
  remaining is \<open>TruncatedRecord\<close> and the iterator is failed. Producing the last
  record exhausts the iterator; an exhausted iterator signals end of sequence. A failed
  iterator permits no further read.
\<close>

definition next_record :: "RecordIterator \<Rightarrow> Outcome \<times> RecordIterator" where
  "next_record it =
     (case state it of
        Ready d h i \<Rightarrow>
          if i < record_count h then
            (case read_bytes (record_size h) d of
               None \<Rightarrow> (Fail TruncatedRecord, it\<lparr>state := Failed\<rparr>)
             | Some (bs, d') \<Rightarrow>
                 (Produced (make_record h bs),
                  it\<lparr>state := (if Suc i = record_count h then Exhausted else Ready d' h (Suc i))\<rparr>))
          else (EndOfSequence, it\<lparr>state := Exhausted\<rparr>)
      | Exhausted \<Rightarrow> (EndOfSequence, it)
      | _ \<Rightarrow> (NotPermitted, it))"

text \<open>
  Modelled from the spec: \<^verbatim>\<open>restart()\<close> of section 4.2 (its code is missing). From a
  ready or exhausted iterator it runs the decoder's open and readHeader again on the
  iterator's path. The failed state is terminal, and an iterator that has no header yet
  has nothing to restart.
\<close>

definition restart :: "FileSystem \<Rightarrow> RecordIterator \<Rightarrow> Outcome \<times> RecordIterator" where
  "restart fs it =
     (if state it = Exhausted \<or> (case state it of Ready d h i \<Rightarrow> True | _ \<Rightarrow> False) then
        (case decoder_open fs (path it) (compression_type it) of
           Inl e \<Rightarrow> (Fail e, it\<lparr>state := Failed\<rparr>)
         | Inr d \<Rightarrow>
             (case decoder_readHeader d of
                Inl e \<Rightarrow> (Fail e, it\<lparr>state := Failed\<rparr>)
              | Inr (h, d') \<Rightarrow> (Restarted, it\<lparr>state := Ready d' h 0\<rparr>)))
      else (NotPermitted, it))"

subsection \<open>Driving the iterator\<close>

text \<open>
  Modelled from the spec: the host that drives the handle (its code is missing).
  \<open>drain\<close> calls \<open>next_record\<close> until a call produces no record and returns the
  records in order, the outcome of that last call and the iterator after it.
  \<open>advance k\<close> makes \<open>k\<close> calls and drops what they return.
\<close>

fun remaining :: "IterState \<Rightarrow> nat" where
  "remaining (Ready d h i) = Suc (record_count h - i)"
| "remaining _ = 0"

function drain :: "RecordIterator \<Rightarrow> Record list \<times> Outcome \<times> RecordIterator" where
  "drain it =
     (case next_record it of
        (Produced r, it') \<Rightarrow> (case drain it' of (rs, fin) \<Rightarrow> (r # rs, fin))
      | (oc, it') \<Rightarrow> ([], oc, it'))"
  by pat_completeness auto
termination drain
proof (relation "measure (\<lambda>it. remaining (state it))")
  show "wf (measure (\<lambda>it. remaining (state it)))"
    by simp
next
  fix it :: RecordIterator and oc it' r
  assume "(oc, it') = next_record it" and "oc = Produced r"
  then have "next_record it = (Produced r, it')"
    by simp
  then have "remaining (state it') < remaining (state it)"
    by (cases "state it") (auto simp: next_record_def split: if_splits option.splits)
  then show "(it', it) \<in> measure (\<lambda>it. remaining (state it))"
    by simp
qed

fun advance :: "nat \<Rightarrow> RecordIterator \<Rightarrow> RecordIterator" where
  "advance 0 it = it"
| "advance (Suc k) it = advance k (snd (next_record it))"

text \<open>
  Modelled from the spec: the calls a host can make on a handle after it has been opened
  (the host's code is missing), and the outcomes of a sequence of them.
\<close>

datatype Call = CallReadHeader | CallNext | CallRestart

fun call :: "FileSystem \<Rightarrow> Call \<Rightarrow> RecordIterator \<Rightarrow> Outcome \<times> RecordIterator" where
  "call fs CallReadHeader it = readHeader it"
| "call fs CallNext it = next_record it"
| "call fs CallRestart it = restart fs it"

fun run_calls :: "FileSystem \<Rightarrow> Call list \<Rightarrow> RecordIterator \<Rightarrow> Outcome list" where
  "run_calls fs [] it = []"
| "run_calls fs (c # cs) it = (case call fs c it of (oc, it') \<Rightarrow> oc # run_calls fs cs it')"

fun is_record :: "Outcome \<Rightarrow> bool" where
  "is_record (Produced r) = True"
| "is_record _ = False"

text \<open>
  Modelled from the spec: a handle taken through \<^verbatim>\<open>open\<close> and \<^verbatim>\<open>readHeader\<close>, as the
  state machine of section 4.2 starts (the host's code is missing).
\<close>

definition start :: "FileSystem \<Rightarrow> string \<Rightarrow> Compression \<Rightarrow> RecordIterator" where
  "start fs p ct = snd (readHeader (snd (open_iterator fs p ct new_iterator)))"

subsection \<open>The file format\<close>

text \<open>
  Modelled from the spec: the bit-exact input file format of section 6 (no writer of
  such files is in the source). An image file is the magic number, the record count,
  the row count and the column count, then the pixel bytes; a label file is the magic
  number and the record count, then the label bytes.
\<close>

datatype DatasetFile =
  ImageFile "32 word" "32 word" "32 word" "byte list"
  | LabelFile "32 word" "byte list"

fun header_of :: "DatasetFile \<Rightarrow> DatasetHeader" where
  "header_of (ImageFile n r c px) = ImageHeader n r c"
| "header_of (LabelFile n ls) = LabelHeader n"

fun header_bytes :: "DatasetFile \<Rightarrow> byte list" where
  "header_bytes (ImageFile n r c px) = enc32 kImageMagic @ enc32 n @ enc32 r @ enc32 c"
| "header_bytes (LabelFile n ls) = enc32 kLabelMagic @ enc32 n"

fun body :: "DatasetFile \<Rightarrow> byte list" where
  "body (ImageFile n r c px) = px"
| "body (LabelFile n ls) = ls"

definition encode :: "DatasetFile \<Rightarrow> byte list" where
  "encode f = header_bytes f @ body f"

text \<open>
  Modelled from the spec: a well-formed file (section 3 and section 6): its header
  satisfies the invariant that an image's rows times cols is positive, and its body
  holds exactly record count times record size bytes.
\<close>

definition well_formed :: "DatasetFile \<Rightarrow> bool" where
  "well_formed f =
     (0 < record_size (header_of f)
      \<and> length (body f) = record_count (header_of f) * record_size (header_of f))"

text \<open>
  Modelled from the spec: the records of a file in file order, index 0 to record count
  minus 1 (section 4.2); record \<open>i\<close> is the \<open>i\<close>-th chunk of record size bytes of the
  body.
\<close>

definition record_at :: "DatasetHeader \<Rightarrow> byte list \<Rightarrow> nat \<Rightarrow> Record" where
  "record_at h bs i = make_record h (take (record_size h) (drop (i * record_size h) bs))"

definition records_of :: "DatasetFile \<Rightarrow> Record list" where
  "records_of f = map (record_at (header_of f) (body f)) [0..<record_count (header_of f)]"

fun is_image_of_size :: "nat \<Rightarrow> Record \<Rightarrow> bool" where
  "is_image_of_size k (ImageRecord bs) = (length bs = k)"
| "is_image_of_size k (LabelRecord b) = False"

definition stored :: "Compression \<Rightarrow> byte list \<Rightarrow> StoredFile" where
  "stored ct bs = \<lparr>framing = ct, payload = bs\<rparr>"

text \<open>
  Two notions used to state what the iterator does on a file. \<open>started p ct f bd\<close> is
  the iterator that is ready at record 0 of a source made of the header bytes of \<open>f\<close>
  and the body \<open>bd\<close>. An iterator is \<open>in_bounds\<close> when it is exhausted, or ready with
  all the records it still owes present in its source.
\<close>

definition started :: "string \<Rightarrow> Compression \<Rightarrow> DatasetFile \<Rightarrow> byte list \<Rightarrow> RecordIterator" where
  "started p ct f bd =
     \<lparr>path = p, compression_type = ct,
      state = Ready \<lparr>source = header_bytes f @ bd, cursor = length (header_bytes f)\<rparr>
                (header_of f) 0\<rparr>"

definition in_bounds :: "RecordIterator \<Rightarrow> bool" where
  "in_bounds it =
     (case state it of
        Ready d h i \<Rightarrow>
          i \<le> record_count h
          \<and> cursor d + (record_count h - i) * record_size h \<le> length (source d)
      | Exhausted \<Rightarrow> True
      | _ \<Rightarrow> False)"

declare drain.simps [simp del]

section \<open>Properties of the registrations\<close>

subsection \<open>What the builder chains parse to\<close>

lemma parse_filenames:
  "parse_arg ''filenames: string'' = Some \<lparr>arg_name = ''filenames'', arg_type = DT_STRING\<rparr>"
  by (simp add: parse_arg_def is_name_char_def is_lower_def is_blank_def type_names_def)

lemma parse_compression_type:
  "parse_arg ''compression_type: string'' =
     Some \<lparr>arg_name = ''compression_type'', arg_type = DT_STRING\<rparr>"
  by (simp add: parse_arg_def is_name_char_def is_lower_def is_blank_def type_names_def)

lemma parse_handle:
  "parse_arg ''handle: variant'' = Some \<lparr>arg_name = ''handle'', arg_type = DT_VARIANT\<rparr>"
  by (simp add: parse_arg_def is_name_char_def is_lower_def is_blank_def type_names_def)

lemma Finalize_image:
  "Finalize MNISTImageDataset =
     Some \<lparr>op_def = \<lparr>op_name = ''MNISTImageDataset'',
                      input_arg = [\<lparr>arg_name = ''filenames'', arg_type = DT_STRING\<rparr>,
                                   \<lparr>arg_name = ''compression_type'', arg_type = DT_STRING\<rparr>],
                      output_arg = [\<lparr>arg_name = ''handle'', arg_type = DT_VARIANT\<rparr>],
                      is_stateful = True\<rparr>,
           shape_inference_fn = Some MNISTImageDataset_shape_fn\<rparr>"
  by (simp add: Finalize_def MNISTImageDataset_def SetShapeFn_def SetIsStateful_def Output_def
      Input_def REGISTER_OP_def parse_filenames parse_compression_type parse_handle)

lemma Finalize_label:
  "Finalize MNISTLabelDataset =
     Some \<lparr>op_def = \<lparr>op_name = ''MNISTLabelDataset'',
                      input_arg = [\<lparr>arg_name = ''filenames'', arg_type = DT_STRING\<rparr>,
                                   \<lparr>arg_name = ''compression_type'', arg_type = DT_STRING\<rparr>],
                      output_arg = [\<lparr>arg_name = ''handle'', arg_type = DT_VARIANT\<rparr>],
                      is_stateful = True\<rparr>,
           shape_inference_fn = Some MNISTLabelDataset_shape_fn\<rparr>"
  by (simp add: Finalize_def MNISTLabelDataset_def SetShapeFn_def SetIsStateful_def Output_def
      Input_def REGISTER_OP_def parse_filenames parse_compression_type parse_handle)

lemma dataset_ops_eq:
  "dataset_ops = Some [the (Finalize MNISTImageDataset), the (Finalize MNISTLabelDataset)]"
  by (simp add: dataset_ops_def Register_def Finalize_image Finalize_label)

lemma image_fn_run:
  "0 < length (outputs c) \<Longrightarrow>
   MNISTImageDataset_shape_fn c =
     Some (OK, c\<lparr>outputs := (outputs c)[0 := Some (Shape [kUnknownDim, kUnknownDim])]\<rparr>)"
  by (simp add: MNISTImageDataset_shape_fn_def set_output_def MakeShape_def UnknownDim_def)

lemma label_fn_run:
  "0 < length (outputs c) \<Longrightarrow>
   MNISTLabelDataset_shape_fn c = Some (OK, c\<lparr>outputs := (outputs c)[0 := Some (Shape [])]\<rparr>)"
  by (simp add: MNISTLabelDataset_shape_fn_def set_output_def MakeShape_def)

subsection \<open>The claims about the registrations\<close>

text \<open>
  C1: on every inference context that has the output slot 0, the shape function of
  MNISTImageDataset sets output 0 to a shape of rank 2 whose dimensions are both
  unknown, and the shape function of MNISTLabelDataset sets output 0 to a shape of
  rank 0.
\<close>

theorem shape_fns_declare_output_ranks:
  assumes "0 < length (outputs c)"
  shows "(\<exists>st c' s. MNISTImageDataset_shape_fn c = Some (st, c') \<and> output_at c' 0 = Some s
            \<and> Rank s = 2 \<and> list_all (\<lambda>d. \<not> ValueKnown d) (dims s))
       \<and> (\<exists>st c' s. MNISTLabelDataset_shape_fn c = Some (st, c') \<and> output_at c' 0 = Some s
            \<and> Rank s = 0)"
  using assms by (simp add: image_fn_run label_fn_run output_at_def ValueKnown_def)

theorem shape_fns_declare_output_ranks_witness:
  "0 < length (outputs (make_context (op_def (the (Finalize MNISTImageDataset)))
                          [Shape [3], Shape []] [None, Some [''GZIP'']]))
   \<and> (\<exists>st c' s. MNISTImageDataset_shape_fn
                   (make_context (op_def (the (Finalize MNISTImageDataset)))
                      [Shape [3], Shape []] [None, Some [''GZIP'']]) = Some (st, c')
          \<and> output_at c' 0 = Some s \<and> Rank s = 2
          \<and> list_all (\<lambda>d. \<not> ValueKnown d) (dims s))
   \<and> (\<exists>st c' s. MNISTLabelDataset_shape_fn
                   (make_context (op_def (the (Finalize MNISTImageDataset)))
                      [Shape [3], Shape []] [None, Some [''GZIP'']]) = Some (st, c')
          \<and> output_at c' 0 = Some s \<and> Rank s = 0)"
  using shape_fns_declare_output_ranks
    [of "make_context (op_def (the (Finalize MNISTImageDataset)))
           [Shape [3], Shape []] [None, Some [''GZIP'']]"]
  by (simp add: make_context_def Finalize_image)

text \<open>
  C2: the file registers exactly two ops, MNISTImageDataset and MNISTLabelDataset in
  this order, each with a signature (two inputs, one output) and its shape function.
\<close>

theorem registers_exactly_two_ops:
  "\<exists>img lbl. dataset_ops = Some [img, lbl]
     \<and> op_name (op_def img) = ''MNISTImageDataset''
     \<and> op_name (op_def lbl) = ''MNISTLabelDataset''
     \<and> shape_inference_fn img = Some MNISTImageDataset_shape_fn
     \<and> shape_inference_fn lbl = Some MNISTLabelDataset_shape_fn
     \<and> length (input_arg (op_def img)) = 2 \<and> length (output_arg (op_def img)) = 1
     \<and> length (input_arg (op_def lbl)) = 2 \<and> length (output_arg (op_def lbl)) = 1"
  by (simp add: dataset_ops_eq Finalize_image Finalize_label)

text \<open>
  C3: each of the two registered ops has exactly the inputs filenames and
  compression\_type, both of type string and in this order, and exactly one output,
  handle, of type variant.
\<close>

theorem op_signatures:
  "map_option
     (map (\<lambda>r. (map (\<lambda>a. (arg_name a, arg_type a)) (input_arg (op_def r)),
                map (\<lambda>a. (arg_name a, arg_type a)) (output_arg (op_def r)))))
     dataset_ops
   = Some [([(''filenames'', DT_STRING), (''compression_type'', DT_STRING)],
            [(''handle'', DT_VARIANT)]),
           ([(''filenames'', DT_STRING), (''compression_type'', DT_STRING)],
            [(''handle'', DT_VARIANT)])]"
  by (simp add: dataset_ops_eq Finalize_image Finalize_label)

text \<open>
  C4: both registered ops are stateful, and they are so through SetIsStateful: an op
  whose chain does not call it is not stateful.
\<close>

theorem ops_are_stateful:
  "map_option (map (\<lambda>r. (op_name (op_def r), is_stateful (op_def r)))) dataset_ops
     = Some [(''MNISTImageDataset'', True), (''MNISTLabelDataset'', True)]
   \<and> \<not> b_is_stateful (REGISTER_OP n)
   \<and> b_is_stateful (SetIsStateful b)"
  by (simp add: dataset_ops_eq Finalize_image Finalize_label REGISTER_OP_def SetIsStateful_def)

text \<open>
  C9: on every inference context that has the output slot 0, both shape functions
  return the status OK; and on no context at all does either return an error status.
\<close>

theorem shape_fns_return_OK:
  "(0 < length (outputs c) \<longrightarrow>
      map_option fst (MNISTImageDataset_shape_fn c) = Some OK
      \<and> map_option fst (MNISTLabelDataset_shape_fn c) = Some OK)
   \<and> MNISTImageDataset_shape_fn c \<noteq> Some (Error msg, c')
   \<and> MNISTLabelDataset_shape_fn c \<noteq> Some (Error msg, c')"
  by (auto simp add: MNISTImageDataset_shape_fn_def MNISTLabelDataset_shape_fn_def
      set_output_def split: option.splits)

theorem shape_fns_return_OK_witness:
  "0 < length (outputs \<lparr>inputs = [UnknownShape, Shape [7]], input_tensors = [None, None],
                        outputs = [None]\<rparr>)
   \<and> map_option fst (MNISTImageDataset_shape_fn
        \<lparr>inputs = [UnknownShape, Shape [7]], input_tensors = [None, None], outputs = [None]\<rparr>)
       = Some OK
   \<and> map_option fst (MNISTLabelDataset_shape_fn
        \<lparr>inputs = [UnknownShape, Shape [7]], input_tensors = [None, None], outputs = [None]\<rparr>)
       = Some OK"
  using shape_fns_return_OK
    [of "\<lparr>inputs = [UnknownShape, Shape [7]], input_tensors = [None, None], outputs = [None]\<rparr>"]
  by simp

text \<open>
  C10: the output shape that each shape function sets does not depend on the context:
  on any two contexts that have the output slot 0, whatever the shapes and values of
  their inputs, the image op's function leaves the same shape in output 0, unknown by
  unknown, and the label op's function leaves the same shape, the scalar shape.
\<close>

theorem shape_fns_ignore_inputs:
  assumes "0 < length (outputs c1)" and "0 < length (outputs c2)"
  shows "inferred_output MNISTImageDataset_shape_fn c1 0
           = inferred_output MNISTImageDataset_shape_fn c2 0
       \<and> inferred_output MNISTImageDataset_shape_fn c1 0
           = Some (Shape [kUnknownDim, kUnknownDim])
       \<and> inferred_output MNISTLabelDataset_shape_fn c1 0
           = inferred_output MNISTLabelDataset_shape_fn c2 0
       \<and> inferred_output MNISTLabelDataset_shape_fn c1 0 = Some (Shape [])"
  using assms by (simp add: inferred_output_def image_fn_run label_fn_run output_at_def)

theorem shape_fns_ignore_inputs_witness:
  "0 < length (outputs \<lparr>inputs = [Shape [2], Shape []],
                        input_tensors = [Some [''a.gz'', ''b.gz''], Some [''GZIP'']],
                        outputs = [None]\<rparr>)
   \<and> 0 < length (outputs \<lparr>inputs = [UnknownShape, Shape [5, 5]],
                          input_tensors = [None, None],
                          outputs = [Some UnknownShape]\<rparr>)
   \<and> inferred_output MNISTImageDataset_shape_fn
        \<lparr>inputs = [Shape [2], Shape []],
         input_tensors = [Some [''a.gz'', ''b.gz''], Some [''GZIP'']], outputs = [None]\<rparr> 0
     = inferred_output MNISTImageDataset_shape_fn
        \<lparr>inputs = [UnknownShape, Shape [5, 5]], input_tensors = [None, None],
         outputs = [Some UnknownShape]\<rparr> 0
   \<and> inferred_output MNISTLabelDataset_shape_fn
        \<lparr>inputs = [Shape [2], Shape []],
         input_tensors = [Some [''a.gz'', ''b.gz''], Some [''GZIP'']], outputs = [None]\<rparr> 0
     = inferred_output MNISTLabelDataset_shape_fn
        \<lparr>inputs = [UnknownShape, Shape [5, 5]], input_tensors = [None, None],
         outputs = [Some UnknownShape]\<rparr> 0"
  using shape_fns_ignore_inputs
    [of "\<lparr>inputs = [Shape [2], Shape []],
          input_tensors = [Some [''a.gz'', ''b.gz''], Some [''GZIP'']], outputs = [None]\<rparr>"
        "\<lparr>inputs = [UnknownShape, Shape [5, 5]], input_tensors = [None, None],
          outputs = [Some UnknownShape]\<rparr>"]
  by simp

section \<open>Properties of the decoder\<close>

subsection \<open>Big-endian integers and the header\<close>

lemma be32_enc32: "be32 (enc32 w) = w"
  unfolding be32_def enc32_def
  apply simp
  apply (rule bit_word_eqI)
  subgoal for n
    by (cases "n < 8"; cases "n < 16"; cases "n < 24"; auto simp add: bit_simps)
  done

lemma be32_quad:
  "be32 [a, b, c, d] =
     push_bit 24 (ucast a) OR push_bit 16 (ucast b) OR push_bit 8 (ucast c) OR ucast d"
  by (simp add: be32_def push_bit_or or.assoc)

lemma enc32_be32_quad: "enc32 (be32 [a, b, c, d]) = [a, b, c, d]"
  unfolding enc32_def be32_quad
  apply simp
  apply (intro conjI bit_word_eqI)
  apply (auto simp add: bit_simps dest: bit_imp_le_length)
  done

lemma length_enc32 [simp]: "length (enc32 w) = 4"
  by (simp add: enc32_def)

lemma length4_quad: "length m = 4 \<Longrightarrow> \<exists>a b c d. m = [a, b, c, d]"
  by (cases m; simp; cases "tl m"; simp; cases "tl (tl m)"; simp; cases "tl (tl (tl m))"; auto)

lemma enc32_be32: "length m = 4 \<Longrightarrow> enc32 (be32 m) = m"
  using length4_quad [of m] enc32_be32_quad by auto

lemma be32_eq_iff: "length m = 4 \<Longrightarrow> (be32 m = w) = (m = enc32 w)"
  using enc32_be32 be32_enc32 by metis

lemma enc32_image_magic: "enc32 kImageMagic = [0, 0, 8, 3]"
  by (simp add: enc32_def kImageMagic_def)

lemma enc32_label_magic: "enc32 kLabelMagic = [0, 0, 8, 1]"
  by (simp add: enc32_def kLabelMagic_def)

lemma kLabel_not_kImage: "kLabelMagic \<noteq> kImageMagic"
  by (simp add: kLabelMagic_def kImageMagic_def)

lemma readHeader_header_bytes:
  assumes "0 < record_size (header_of f)"
  shows "decoder_readHeader \<lparr>source = header_bytes f @ bd, cursor = 0\<rparr>
         = Inr (header_of f, \<lparr>source = header_bytes f @ bd, cursor = length (header_bytes f)\<rparr>)"
proof (cases f)
  case (ImageFile n r c px)
  then show ?thesis using assms
    by (simp add: decoder_readHeader_def read_bytes_def be32_enc32)
next
  case (LabelFile n ls)
  then show ?thesis
    by (simp add: decoder_readHeader_def read_bytes_def be32_enc32 kLabel_not_kImage)
qed

lemma zero_geometry_refused:
  assumes "unat r * unat c = 0"
  shows "decoder_readHeader \<lparr>source = encode (ImageFile n r c px), cursor = 0\<rparr>
         = Inl MalformedHeader"
  using assms by (simp add: decoder_readHeader_def read_bytes_def encode_def be32_enc32)

lemma readHeader_bad_magic:
  assumes "take 4 bs \<noteq> enc32 kImageMagic" and "take 4 bs \<noteq> enc32 kLabelMagic"
  shows "decoder_readHeader \<lparr>source = bs, cursor = 0\<rparr> = Inl MalformedHeader"
proof (cases "4 \<le> length bs")
  case True
  then have "length (take 4 bs) = 4" by simp
  then have "be32 (take 4 bs) \<noteq> kImageMagic" "be32 (take 4 bs) \<noteq> kLabelMagic"
    using assms by (simp_all add: be32_eq_iff)
  then show ?thesis using True
    by (simp add: decoder_readHeader_def read_bytes_def)
next
  case False
  then show ?thesis
    by (simp add: decoder_readHeader_def read_bytes_def)
qed

subsection \<open>Iterating\<close>

lemma read_bytes_at:
  assumes "source d = pre @ bd" and "cursor d = length pre + k" and "k + n \<le> length bd"
  shows "read_bytes n d = Some (take n (drop k bd), d\<lparr>cursor := cursor d + n\<rparr>)"
  using assms by (simp add: read_bytes_def)

lemma read_bytes_short:
  assumes "source d = pre @ bd" and "cursor d = length pre + k" and "length bd < k + n"
  shows "read_bytes n d = None"
  using assms by (simp add: read_bytes_def)

lemma drain_ready:
  assumes "0 < record_size h"
    and "source d = pre @ bd"
    and "cursor d = length pre + i * record_size h"
    and "state it = Ready d h i"
    and "i \<le> m" and "m \<le> record_count h"
    and "m * record_size h \<le> length bd"
    and "m < record_count h \<longrightarrow> length bd < Suc m * record_size h"
  shows "drain it =
           (map (record_at h bd) [i..<m],
            if m = record_count h then EndOfSequence else Fail TruncatedRecord,
            it\<lparr>state := (if m = record_count h then Exhausted else Failed)\<rparr>)"
  using assms
proof (induction "m - i" arbitrary: i d it)
  case 0
  then have im: "i = m" by simp
  show ?case
  proof (cases "m = record_count h")
    case True
    with 0 im have "next_record it = (EndOfSequence, it\<lparr>state := Exhausted\<rparr>)"
      by (simp add: next_record_def)
    with True im show ?thesis
      by (simp add: drain.simps)
  next
    case False
    with 0 have lt: "m < record_count h" and short: "length bd < Suc m * record_size h"
      by simp_all
    have "read_bytes (record_size h) d = None"
      using read_bytes_short [OF "0.prems"(2) "0.prems"(3)] short im by simp
    with 0 im lt have "next_record it = (Fail TruncatedRecord, it\<lparr>state := Failed\<rparr>)"
      by (simp add: next_record_def)
    with False im show ?thesis
      by (simp add: drain.simps)
  qed
next
  case (Suc k)
  then have lt: "i < m" by simp
  with Suc.prems have ic: "i < record_count h" by simp
  have "Suc i * record_size h \<le> m * record_size h"
    using lt by (simp add: Suc_leI mult_le_mono1 del: mult_Suc)
  with Suc.prems have fits: "i * record_size h + record_size h \<le> length bd"
    by simp
  let ?d' = "d\<lparr>cursor := cursor d + record_size h\<rparr>"
  have rd: "read_bytes (record_size h) d
              = Some (take (record_size h) (drop (i * record_size h) bd), ?d')"
    using read_bytes_at [OF Suc.prems(2) Suc.prems(3) fits] .
  show ?case
  proof (cases "Suc i = record_count h")
    case True
    with lt Suc.prems have mc: "m = record_count h" and mi: "m = Suc i" by simp_all
    let ?it' = "it\<lparr>state := Exhausted\<rparr>"
    have nx: "next_record it = (Produced (record_at h bd i), ?it')"
      using Suc.prems(4) ic rd True by (simp add: next_record_def record_at_def)
    have "next_record ?it' = (EndOfSequence, ?it')"
      by (simp add: next_record_def)
    then have "drain ?it' = ([], EndOfSequence, ?it')"
      by (simp add: drain.simps)
    with nx mi show ?thesis
      by (simp add: drain.simps [of it] True [symmetric])
  next
    case False
    let ?it' = "it\<lparr>state := Ready ?d' h (Suc i)\<rparr>"
    have nx: "next_record it = (Produced (record_at h bd i), ?it')"
      using Suc.prems(4) ic rd False by (simp add: next_record_def record_at_def)
    have "drain ?it' =
           (map (record_at h bd) [Suc i..<m],
            if m = record_count h then EndOfSequence else Fail TruncatedRecord,
            ?it'\<lparr>state := (if m = record_count h then Exhausted else Failed)\<rparr>)"
    proof (rule Suc.hyps(1))
      show "k = m - Suc i" using Suc.hyps(2) by simp
      show "0 < record_size h" by (rule Suc.prems(1))
      show "source ?d' = pre @ bd" using Suc.prems(2) by simp
      show "cursor ?d' = length pre + Suc i * record_size h" using Suc.prems(3) by simp
      show "state ?it' = Ready ?d' h (Suc i)" by simp
      show "Suc i \<le> m" using lt by simp
      show "m \<le> record_count h" by (rule Suc.prems(6))
      show "m * record_size h \<le> length bd" by (rule Suc.prems(7))
      show "m < record_count h \<longrightarrow> length bd < Suc m * record_size h" by (rule Suc.prems(8))
    qed
    with nx lt show ?thesis
      by (simp add: drain.simps [of it] upt_conv_Cons)
  qed
qed

lemma open_stored:
  assumes "fs p = Some (stored ct bs)"
  shows "open_iterator fs p ct it
         = (Opened, \<lparr>path = p, compression_type = ct,
                     state = HeaderPending \<lparr>source = bs, cursor = 0\<rparr>\<rparr>)"
  using assms by (simp add: open_iterator_def decoder_open_def stored_def)

lemma decoder_open_stored:
  assumes "fs p = Some (stored ct bs)"
  shows "decoder_open fs p ct = Inr \<lparr>source = bs, cursor = 0\<rparr>"
  using assms by (simp add: decoder_open_def stored_def)

lemma readHeader_stored:
  assumes "fs p = Some (stored ct (header_bytes f @ bd))" and "0 < record_size (header_of f)"
  shows "readHeader (snd (open_iterator fs p ct it)) = (HeaderRead (header_of f), started p ct f bd)"
  using assms
  by (simp add: open_stored readHeader_def readHeader_header_bytes started_def)

lemma start_stored:
  assumes "fs p = Some (stored ct (header_bytes f @ bd))" and "0 < record_size (header_of f)"
  shows "start fs p ct = started p ct f bd"
  using assms by (simp add: start_def readHeader_stored)

lemma drain_started:
  assumes "0 < record_size (header_of f)"
    and "m \<le> record_count (header_of f)"
    and "m * record_size (header_of f) \<le> length bd"
    and "m < record_count (header_of f) \<longrightarrow> length bd < Suc m * record_size (header_of f)"
  shows "drain (started p ct f bd) =
           (map (record_at (header_of f) bd) [0..<m],
            if m = record_count (header_of f) then EndOfSequence else Fail TruncatedRecord,
            (started p ct f bd)\<lparr>state :=
               (if m = record_count (header_of f) then Exhausted else Failed)\<rparr>)"
proof (rule drain_ready [where pre = "header_bytes f" and i = 0 and m = m
      and d = "\<lparr>source = header_bytes f @ bd, cursor = length (header_bytes f)\<rparr>"])
  show "0 < record_size (header_of f)" by (rule assms(1))
qed (use assms in \<open>simp_all add: started_def\<close>)

lemma drain_well_formed:
  assumes "well_formed f"
  shows "drain (started p ct f (body f)) =
           (records_of f, EndOfSequence, (started p ct f (body f))\<lparr>state := Exhausted\<rparr>)"
  using drain_started [of f "record_count (header_of f)" "body f" p ct] assms
  by (simp add: well_formed_def records_of_def)

lemma is_image_record_at:
  assumes "Suc i * (unat r * unat c) \<le> length bd"
  shows "is_image_of_size (unat r * unat c) (record_at (ImageHeader n r c) bd i)"
  using assms by (simp add: record_at_def)

subsection \<open>The claims about the decoder\<close>

text \<open>
  C5: for every well-formed image file (magic 0x00000803, a record count, rows and cols
  whose product is positive as the header invariant demands, and record count times
  rows times cols pixel bytes), opening it, reading its header and iterating to
  exhaustion produces the records of the file in order and then end of sequence: there
  are exactly record count of them, and each is an image record of exactly rows times
  cols bytes.
\<close>

theorem image_file_decodes_all_records:
  assumes "fs p = Some (stored ct (encode (ImageFile n r c px)))"
    and "well_formed (ImageFile n r c px)"
  shows "fst (open_iterator fs p ct new_iterator) = Opened
       \<and> fst (readHeader (snd (open_iterator fs p ct new_iterator))) = HeaderRead (ImageHeader n r c)
       \<and> fst (drain (start fs p ct)) = records_of (ImageFile n r c px)
       \<and> fst (snd (drain (start fs p ct))) = EndOfSequence
       \<and> length (fst (drain (start fs p ct))) = unat n
       \<and> list_all (is_image_of_size (unat r * unat c)) (fst (drain (start fs p ct)))"
proof -
  let ?f = "ImageFile n r c px"
  have pos: "0 < record_size (header_of ?f)"
    using assms(2) by (simp add: well_formed_def)
  have st: "fs p = Some (stored ct (header_bytes ?f @ body ?f))"
    using assms(1) by (simp add: encode_def)
  have s: "start fs p ct = started p ct ?f (body ?f)"
    by (rule start_stored [of fs p ct ?f "body ?f", OF st pos])
  have dr: "drain (start fs p ct)
            = (records_of ?f, EndOfSequence, (started p ct ?f (body ?f))\<lparr>state := Exhausted\<rparr>)"
    unfolding s by (rule drain_well_formed [OF assms(2)])
  have len: "length px = unat n * (unat r * unat c)"
    using assms(2) by (simp add: well_formed_def)
  have sizes: "list_all (is_image_of_size (unat r * unat c)) (records_of ?f)"
    unfolding records_of_def list_all_iff
  proof
    fix x assume "x \<in> set (map (record_at (header_of ?f) (body ?f)) [0..<record_count (header_of ?f)])"
    then obtain i where i: "i < unat n" and x: "x = record_at (ImageHeader n r c) px i"
      by auto
    from i have "Suc i * (unat r * unat c) \<le> unat n * (unat r * unat c)"
      by (simp add: Suc_leI mult_le_mono1 del: mult_Suc)
    with len x show "is_image_of_size (unat r * unat c) x"
      by (simp add: is_image_record_at)
  qed
  show ?thesis
    using open_stored [of fs p ct _ new_iterator, OF st]
      readHeader_stored [of fs p ct ?f "body ?f" new_iterator, OF st pos] dr sizes
    by (simp add: records_of_def)
qed

theorem image_file_decodes_all_records_witness:
  "well_formed (ImageFile 1 2 2 [0x10, 0x20, 0x30, 0x40])
   \<and> encode (ImageFile 1 2 2 [0x10, 0x20, 0x30, 0x40])
       = [0, 0, 8, 3, 0, 0, 0, 1, 0, 0, 0, 2, 0, 0, 0, 2, 0x10, 0x20, 0x30, 0x40]
   \<and> fst (drain (start [''images'' \<mapsto> stored Gzip (encode (ImageFile 1 2 2 [0x10, 0x20, 0x30, 0x40]))]
                    ''images'' Gzip))
       = [ImageRecord [0x10, 0x20, 0x30, 0x40]]"
  using image_file_decodes_all_records
    [of "[''images'' \<mapsto> stored Gzip (encode (ImageFile 1 2 2 [0x10, 0x20, 0x30, 0x40]))]"
      "''images''" Gzip 1 2 2 "[0x10, 0x20, 0x30, 0x40]"]
  by (simp add: well_formed_def records_of_def record_at_def encode_def enc32_def kImageMagic_def)

lemma next_record_in_bounds:
  assumes "in_bounds it"
  shows "in_bounds (snd (next_record it))
       \<and> path (snd (next_record it)) = path it
       \<and> compression_type (snd (next_record it)) = compression_type it"
proof (cases "state it")
  case (Ready d h i)
  show ?thesis
  proof (cases "i < record_count h")
    case True
    then obtain j where j: "record_count h - i = Suc j" and j': "record_count h - Suc i = j"
      by (cases "record_count h - i") simp_all
    from assms Ready have "cursor d + (record_count h - i) * record_size h \<le> length (source d)"
      by (simp add: in_bounds_def)
    then have room: "cursor d + record_size h + j * record_size h \<le> length (source d)"
      unfolding j by simp
    then have fits: "cursor d + record_size h \<le> length (source d)"
      by simp
    from Ready True fits room j' show ?thesis
      by (simp add: in_bounds_def next_record_def read_bytes_def Suc_leI)
  next
    case False
    with Ready show ?thesis
      by (simp add: in_bounds_def next_record_def)
  qed
qed (use assms in \<open>simp_all add: in_bounds_def next_record_def\<close>)

lemma advance_in_bounds:
  assumes "in_bounds it"
  shows "in_bounds (advance k it) \<and> path (advance k it) = path it
       \<and> compression_type (advance k it) = compression_type it"
  using assms
proof (induction k arbitrary: it)
  case 0
  then show ?case by simp
next
  case (Suc k)
  from next_record_in_bounds [OF Suc.prems] Suc.IH [of "snd (next_record it)"]
  show ?case by simp
qed

lemma started_in_bounds:
  assumes "well_formed f"
  shows "in_bounds (started p ct f (body f))"
  using assms by (simp add: in_bounds_def started_def well_formed_def)

lemma restart_in_bounds:
  assumes "fs p = Some (stored ct (header_bytes f @ bd))" and "0 < record_size (header_of f)"
    and "in_bounds it" and "path it = p" and "compression_type it = ct"
  shows "restart fs it = (Restarted, started p ct f bd)"
proof -
  have ok: "state it = Exhausted \<or> (case state it of Ready d h i \<Rightarrow> True | _ \<Rightarrow> False)"
    using assms(3) by (cases "state it") (simp_all add: in_bounds_def)
  have "it\<lparr>state := Ready \<lparr>source = header_bytes f @ bd, cursor = length (header_bytes f)\<rparr>
                      (header_of f) 0\<rparr> = started p ct f bd"
    using assms(4,5) by (cases it) (simp add: started_def)
  with ok assms(1,2,4,5) show ?thesis
    by (simp add: restart_def decoder_open_stored readHeader_header_bytes)
qed

text \<open>
  C6: for every well-formed file, image or label, a restart after any number \<open>k\<close> of
  calls of next, and a restart after a full iteration, both succeed, and iterating to
  exhaustion from there gives exactly what the first full iteration gives: the same
  records, byte for byte, the same final outcome and the same final iterator.
\<close>

theorem restart_replays_records:
  assumes "fs p = Some (stored ct (encode f))" and "well_formed f"
  shows "fst (restart fs (advance k (start fs p ct))) = Restarted
       \<and> drain (snd (restart fs (advance k (start fs p ct)))) = drain (start fs p ct)
       \<and> fst (restart fs (snd (snd (drain (start fs p ct))))) = Restarted
       \<and> drain (snd (restart fs (snd (snd (drain (start fs p ct)))))) = drain (start fs p ct)
       \<and> fst (drain (start fs p ct)) = records_of f"
proof -
  have pos: "0 < record_size (header_of f)"
    using assms(2) by (simp add: well_formed_def)
  have st: "fs p = Some (stored ct (header_bytes f @ body f))"
    using assms(1) by (simp add: encode_def)
  let ?s = "started p ct f (body f)"
  have s: "start fs p ct = ?s"
    by (rule start_stored [of fs p ct f "body f", OF st pos])
  have inb: "in_bounds (advance k ?s)" and pth: "path (advance k ?s) = p"
    and cmp: "compression_type (advance k ?s) = ct"
    using advance_in_bounds [OF started_in_bounds [OF assms(2)], of k p ct]
    by (simp_all add: started_def)
  have r1: "restart fs (advance k ?s) = (Restarted, ?s)"
    by (rule restart_in_bounds [of fs p ct f "body f", OF st pos inb pth cmp])
  have dr: "drain ?s = (records_of f, EndOfSequence, ?s\<lparr>state := Exhausted\<rparr>)"
    by (rule drain_well_formed [OF assms(2)])
  have "in_bounds (?s\<lparr>state := Exhausted\<rparr>)"
    by (simp add: in_bounds_def)
  then have r2: "restart fs (?s\<lparr>state := Exhausted\<rparr>) = (Restarted, ?s)"
    by (intro restart_in_bounds [of fs p ct f "body f", OF st pos]) (simp_all add: started_def)
  show ?thesis
    unfolding s using r1 r2 dr by simp
qed

theorem restart_replays_records_witness:
  "well_formed (LabelFile 3 [5, 0, 9])
   \<and> encode (LabelFile 3 [5, 0, 9]) = [0, 0, 8, 1, 0, 0, 0, 3, 5, 0, 9]
   \<and> fst (drain (snd (restart [''labels'' \<mapsto> stored Uncompressed (encode (LabelFile 3 [5, 0, 9]))]
         (advance 2 (start [''labels'' \<mapsto> stored Uncompressed (encode (LabelFile 3 [5, 0, 9]))]
                       ''labels'' Uncompressed)))))
     = [LabelRecord 5, LabelRecord 0, LabelRecord 9]
   \<and> fst (drain (start [''labels'' \<mapsto> stored Uncompressed (encode (LabelFile 3 [5, 0, 9]))]
                       ''labels'' Uncompressed))
     = [LabelRecord 5, LabelRecord 0, LabelRecord 9]"
  using restart_replays_records
    [of "[''labels'' \<mapsto> stored Uncompressed (encode (LabelFile 3 [5, 0, 9]))]"
      "''labels''" Uncompressed "LabelFile 3 [5, 0, 9]" 2]
  by (simp add: well_formed_def records_of_def record_at_def encode_def enc32_def kLabelMagic_def
      upt_conv_Cons)

lemma record_at_butlast:
  assumes "Suc i * record_size h \<le> length (butlast bd)"
  shows "record_at h (butlast bd) i = record_at h bd i"
proof -
  have "i * record_size h + record_size h \<le> length bd - 1"
    using assms by simp
  then show ?thesis
    by (simp add: record_at_def butlast_conv_take drop_take min_def)
qed

lemma advance_ready:
  assumes "state it = Ready d h i"
    and "cursor d + j * record_size h \<le> length (source d)"
    and "i + j < record_count h"
  shows "advance j it = it\<lparr>state := Ready (d\<lparr>cursor := cursor d + j * record_size h\<rparr>) h (i + j)\<rparr>"
  using assms
proof (induction j arbitrary: it d i)
  case 0
  then show ?case by (cases it) simp
next
  case (Suc j)
  let ?d' = "d\<lparr>cursor := cursor d + record_size h\<rparr>"
  let ?it' = "it\<lparr>state := Ready ?d' h (Suc i)\<rparr>"
  from Suc.prems have nx: "next_record it = (Produced (make_record h (take (record_size h) (drop (cursor d) (source d)))), ?it')"
    by (simp add: next_record_def read_bytes_def)
  have "advance j ?it' = ?it'\<lparr>state := Ready (?d'\<lparr>cursor := cursor ?d' + j * record_size h\<rparr>) h (Suc i + j)\<rparr>"
    by (rule Suc.IH) (use Suc.prems in simp_all)
  with nx show ?case
    by (simp add: add.assoc)
qed

text \<open>
  C7: for every well-formed file that has a last record, cut one byte short of the end of
  that record, the header still reads, the calls of next before the last one produce
  the records before the last one, and the last call, the one for the record at index
  record count minus 1, fails with TruncatedRecord and leaves the iterator failed; it
  does not produce a record.
\<close>

theorem truncated_file_fails_last_next:
  assumes "fs p = Some (stored ct (butlast (encode f)))"
    and "well_formed f"
    and "0 < record_count (header_of f)"
  shows "fst (readHeader (snd (open_iterator fs p ct new_iterator))) = HeaderRead (header_of f)
       \<and> fst (next_record (advance (record_count (header_of f) - 1) (start fs p ct)))
           = Fail TruncatedRecord
       \<and> state (snd (next_record (advance (record_count (header_of f) - 1) (start fs p ct))))
           = Failed
       \<and> fst (drain (start fs p ct)) = take (record_count (header_of f) - 1) (records_of f)
       \<and> fst (snd (drain (start fs p ct))) = Fail TruncatedRecord"
proof -
  let ?h = "header_of f"
  let ?n = "record_count ?h"
  let ?sz = "record_size ?h"
  let ?bd = "butlast (body f)"
  have pos: "0 < ?sz" and len: "length (body f) = ?n * ?sz"
    using assms(2) by (simp_all add: well_formed_def)
  from assms(3) obtain m where m: "?n = Suc m"
    by (cases ?n) simp_all
  have ne: "body f \<noteq> []"
    using len pos m by auto
  have st: "fs p = Some (stored ct (header_bytes f @ ?bd))"
    using assms(1) ne by (simp add: encode_def butlast_append)
  let ?s = "started p ct f ?bd"
  have s: "start fs p ct = ?s"
    by (rule start_stored [of fs p ct f ?bd, OF st pos])
  have lb: "length ?bd = m * ?sz + (?sz - 1)"
    using len m pos by simp
  have fit: "m * ?sz \<le> length ?bd"
    using lb by simp
  have short: "length ?bd < Suc m * ?sz"
    using lb pos by simp
  have dr: "drain ?s = (map (record_at ?h ?bd) [0..<m], Fail TruncatedRecord, ?s\<lparr>state := Failed\<rparr>)"
    using drain_started [of f m ?bd p ct] pos m fit short by simp
  have "map (record_at ?h ?bd) [0..<m] = map (record_at ?h (body f)) [0..<m]"
  proof (rule map_cong [OF refl])
    fix i assume "i \<in> set [0..<m]"
    then have "Suc i \<le> m" by simp
    then have "Suc i * ?sz \<le> m * ?sz" by (rule mult_le_mono1)
    with fit have "Suc i * ?sz \<le> length ?bd" by simp
    then show "record_at ?h ?bd i = record_at ?h (body f) i"
      by (rule record_at_butlast)
  qed
  also have "\<dots> = take m (records_of f)"
    by (simp add: records_of_def m take_map)
  finally have recs: "map (record_at ?h ?bd) [0..<m] = take m (records_of f)" .
  let ?d = "\<lparr>source = header_bytes f @ ?bd, cursor = length (header_bytes f)\<rparr>"
  have adv: "advance m ?s = ?s\<lparr>state := Ready (?d\<lparr>cursor := cursor ?d + m * ?sz\<rparr>) ?h (0 + m)\<rparr>"
    by (rule advance_ready) (use fit m in \<open>simp_all add: started_def\<close>)
  have nx: "next_record (advance m ?s) = (Fail TruncatedRecord, (advance m ?s)\<lparr>state := Failed\<rparr>)"
    unfolding adv using short m by (simp add: next_record_def read_bytes_def)
  show ?thesis
    unfolding s
    using readHeader_stored [of fs p ct f ?bd new_iterator, OF st pos] dr recs nx m
    by simp
qed

theorem truncated_file_fails_last_next_witness:
  "well_formed (ImageFile 2 1 2 [1, 2, 3, 4])
   \<and> 0 < record_count (header_of (ImageFile 2 1 2 [1, 2, 3, 4]))
   \<and> butlast (encode (ImageFile 2 1 2 [1, 2, 3, 4]))
       = [0, 0, 8, 3, 0, 0, 0, 2, 0, 0, 0, 1, 0, 0, 0, 2, 1, 2, 3]
   \<and> fst (next_record
        (advance (record_count (header_of (ImageFile 2 1 2 [1, 2, 3, 4])) - 1)
           (start [''images'' \<mapsto> stored Zlib (butlast (encode (ImageFile 2 1 2 [1, 2, 3, 4])))]
              ''images'' Zlib)))
       = Fail TruncatedRecord
   \<and> fst (drain (start [''images'' \<mapsto> stored Zlib (butlast (encode (ImageFile 2 1 2 [1, 2, 3, 4])))]
                    ''images'' Zlib))
       = [ImageRecord [1, 2]]
   \<and> fst (snd (drain (start [''images'' \<mapsto> stored Zlib (butlast (encode (ImageFile 2 1 2 [1, 2, 3, 4])))]
                    ''images'' Zlib)))
       = Fail TruncatedRecord"
  using truncated_file_fails_last_next
    [of "[''images'' \<mapsto> stored Zlib (butlast (encode (ImageFile 2 1 2 [1, 2, 3, 4])))]"
        "''images''" Zlib "ImageFile 2 1 2 [1, 2, 3, 4]"]
  by (simp add: well_formed_def records_of_def record_at_def encode_def enc32_def kImageMagic_def
      upt_conv_Cons)

text \<open>
  C8: for every input whose first four bytes are neither 00 00 08 03 nor 00 00 08 01
  (inputs shorter than four bytes included), readHeader fails with MalformedHeader,
  and no sequence of later calls of next, restart or readHeader on the handle ever
  produces a record.
\<close>

theorem bad_magic_yields_no_record:
  assumes "fs p = Some (stored ct bs)"
    and "take 4 bs \<noteq> [0, 0, 8, 3]" and "take 4 bs \<noteq> [0, 0, 8, 1]"
  shows "fst (open_iterator fs p ct new_iterator) = Opened
       \<and> fst (readHeader (snd (open_iterator fs p ct new_iterator))) = Fail MalformedHeader
       \<and> decoder_readHeader \<lparr>source = bs, cursor = 0\<rparr> = Inl MalformedHeader
       \<and> \<not> list_ex is_record (run_calls fs cs (start fs p ct))
       \<and> fst (drain (start fs p ct)) = []"
proof -
  have bad: "decoder_readHeader \<lparr>source = bs, cursor = 0\<rparr> = Inl MalformedHeader"
    using assms(2,3) by (intro readHeader_bad_magic) (simp_all add: enc32_image_magic enc32_label_magic)
  let ?f = "\<lparr>path = p, compression_type = ct, state = Failed\<rparr>"
  have rh: "readHeader (snd (open_iterator fs p ct new_iterator)) = (Fail MalformedHeader, ?f)"
    using open_stored [of fs p ct bs new_iterator, OF assms(1)] bad
    by (simp add: readHeader_def)
  then have s: "start fs p ct = ?f"
    by (simp add: start_def)
  have stuck: "call fs c it = (NotPermitted, it)" if "state it = Failed" for c it
    using that by (cases c) (simp_all add: readHeader_def next_record_def restart_def)
  have none: "\<not> list_ex is_record (run_calls fs cs it)" if "state it = Failed" for it
    using that by (induction cs) (simp_all add: stuck)
  have "next_record ?f = (NotPermitted, ?f)"
    by (simp add: next_record_def)
  then have "drain ?f = ([], NotPermitted, ?f)"
    by (simp add: drain.simps)
  with open_stored [of fs p ct bs new_iterator, OF assms(1)] rh bad none [of ?f] show ?thesis
    unfolding s by simp
qed

theorem bad_magic_yields_no_record_witness:
  "take 4 [0, 0, 8, 2, 0, 0, 0, 1, 7::byte] \<noteq> [0, 0, 8, 3]
   \<and> take 4 [0, 0, 8, 2, 0, 0, 0, 1, 7::byte] \<noteq> [0, 0, 8, 1]
   \<and> fst (readHeader (snd (open_iterator [''labels'' \<mapsto> stored Uncompressed [0, 0, 8, 2, 0, 0, 0, 1, 7]]
        ''labels'' Uncompressed new_iterator))) = Fail MalformedHeader
   \<and> \<not> list_ex is_record
        (run_calls [''labels'' \<mapsto> stored Uncompressed [0, 0, 8, 2, 0, 0, 0, 1, 7]]
           [CallNext, CallRestart, CallNext, CallReadHeader, CallNext]
           (start [''labels'' \<mapsto> stored Uncompressed [0, 0, 8, 2, 0, 0, 0, 1, 7]]
              ''labels'' Uncompressed))"
  using bad_magic_yields_no_record
    [of "[''labels'' \<mapsto> stored Uncompressed [0, 0, 8, 2, 0, 0, 0, 1, 7]]" "''labels''"
      Uncompressed "[0, 0, 8, 2, 0, 0, 0, 1, 7]" "[CallNext, CallRestart, CallNext, CallReadHeader, CallNext]"]
  by simp

end
